theory Spec2Isabelle
  imports Main "HOL-Library.Word"
begin

unbundle bit_operations_syntax

section \<open>Data model of the DCPU-16 core\<close>

text \<open>
  \<^verbatim>\<open>type Word uint16\<close>: every register and every memory cell is a 16-bit word whose
  arithmetic wraps around.
\<close>

type_synonym Word = "16 word"

record ProtectionError =
  Address :: Word
  Opcode :: Word
  OperandA :: Word
  OperandB :: Word

text \<open>
  The register file. The overflow register \<^verbatim>\<open>O\<close> is called \<open>O_reg\<close>, since \<open>O\<close> is the
  composition of relations in HOL.
\<close>

record Registers =
  A :: Word
  B :: Word
  C :: Word
  X :: Word
  Y :: Word
  Z :: Word
  I :: Word
  J :: Word
  PC :: Word
  SP :: Word
  O_reg :: Word

record Region =
  Start :: Word
  Length :: Word

definition Contains :: "Region \<Rightarrow> Word \<Rightarrow> bool" where
  "Contains r address \<longleftrightarrow> address \<ge> Start r \<and> address < Start r + Length r"

definition End :: "Region \<Rightarrow> Word" where
  "End r = Start r + Length r"

definition Union :: "Region \<Rightarrow> Region \<Rightarrow> Region" where
  "Union r r2 =
     (let start = (if Start r2 < Start r then Start r2 else Start r)
      in \<lparr>Start = start,
          Length = (if End r2 > End r then End r2 - start else End r - start)\<rparr>)"

text \<open>
  \<^verbatim>\<open>State\<close> embeds the registers. \<^verbatim>\<open>Ram [0x10000]Word\<close> is indexed by a \<^verbatim>\<open>Word\<close>
  everywhere, so no index is out of range and the array is a total function.
\<close>

record State = Registers +
  Ram :: "Word \<Rightarrow> Word"
  Protected :: "Region list"

text \<open>
  \<^verbatim>\<open>assignable *Word\<close> points into the state: at one of the eleven registers or at
  a cell of \<^verbatim>\<open>Ram\<close>. A nil pointer is \<open>None\<close>. The pointer is kept while the state changes,
  so it is modelled by the place it names, read by \<open>deref\<close> and written by \<open>assign\<close>.
\<close>

datatype pointer =
  Ptr_A | Ptr_B | Ptr_C | Ptr_X | Ptr_Y | Ptr_Z | Ptr_I | Ptr_J
  | Ptr_SP | Ptr_PC | Ptr_O
  | Ptr_Ram Word

fun deref :: "State \<Rightarrow> pointer \<Rightarrow> Word" where
  "deref s Ptr_A = A s"
| "deref s Ptr_B = B s"
| "deref s Ptr_C = C s"
| "deref s Ptr_X = X s"
| "deref s Ptr_Y = Y s"
| "deref s Ptr_Z = Z s"
| "deref s Ptr_I = I s"
| "deref s Ptr_J = J s"
| "deref s Ptr_SP = SP s"
| "deref s Ptr_PC = PC s"
| "deref s Ptr_O = O_reg s"
| "deref s (Ptr_Ram i) = Ram s i"

fun assign :: "pointer \<Rightarrow> Word \<Rightarrow> State \<Rightarrow> State" where
  "assign Ptr_A v s = s\<lparr>A := v\<rparr>"
| "assign Ptr_B v s = s\<lparr>B := v\<rparr>"
| "assign Ptr_C v s = s\<lparr>C := v\<rparr>"
| "assign Ptr_X v s = s\<lparr>X := v\<rparr>"
| "assign Ptr_Y v s = s\<lparr>Y := v\<rparr>"
| "assign Ptr_Z v s = s\<lparr>Z := v\<rparr>"
| "assign Ptr_I v s = s\<lparr>I := v\<rparr>"
| "assign Ptr_J v s = s\<lparr>J := v\<rparr>"
| "assign Ptr_SP v s = s\<lparr>SP := v\<rparr>"
| "assign Ptr_PC v s = s\<lparr>PC := v\<rparr>"
| "assign Ptr_O v s = s\<lparr>O_reg := v\<rparr>"
| "assign (Ptr_Ram i) v s = s\<lparr>Ram := (Ram s)(i := v)\<rparr>"

text \<open>The three ways a call can panic at run time.\<close>

datatype panic = Out_of_bounds_operand | Out_of_bounds_opcode | Integer_divide_by_zero

section \<open>Decoding\<close>

definition decodeOpcode :: "Word \<Rightarrow> Word \<times> Word \<times> Word" where
  "decodeOpcode opcode =
     (opcode AND 0xF, (drop_bit 4 opcode) AND 0x3F, (drop_bit 10 opcode) AND 0x3F)"

text \<open>
  \<^verbatim>\<open>wordCount\<close>: a Go \<^verbatim>\<open>switch\<close> runs the first case that holds and does not fall
  through to the next one, so the cases \<^verbatim>\<open>a >= 16 && a <= 23\<close> and \<^verbatim>\<open>a == 30\<close>, whose
  bodies are empty, leave \<^verbatim>\<open>count\<close> as it is.
\<close>

definition wordCount :: "Word \<Rightarrow> Word" where
  "wordCount opcode =
     (let (_, a, b) = decodeOpcode opcode;
          count = 1;
          count = (if a \<ge> 16 \<and> a \<le> 23 then count
                   else if a = 30 then count
                   else if a = 31 then count + 1
                   else count);
          count = (if b \<ge> 16 \<and> b \<le> 23 then count
                   else if b = 30 then count
                   else if b = 31 then count + 1
                   else count)
      in count)"

section \<open>Operand translation\<close>

text \<open>
  The end of \<^verbatim>\<open>translateOperand\<close>: when a place was taken, the value is read through
  it, in the state as the side effects of the case left it.
\<close>

definition readBack :: "Word \<Rightarrow> pointer option \<Rightarrow> State \<Rightarrow> Word \<times> pointer option \<times> State" where
  "readBack val assignable s =
     (case assignable of
        None \<Rightarrow> (val, None, s)
      | Some p \<Rightarrow> (deref s p, Some p, s))"

definition translateOperand :: "Word \<Rightarrow> State \<Rightarrow> panic + (Word \<times> pointer option \<times> State)" where
  "translateOperand op s =
     (if op = 0 then Inr (readBack 0 (Some Ptr_A) s)
      else if op = 1 then Inr (readBack 0 (Some Ptr_B) s)
      else if op = 2 then Inr (readBack 0 (Some Ptr_C) s)
      else if op = 3 then Inr (readBack 0 (Some Ptr_X) s)
      else if op = 4 then Inr (readBack 0 (Some Ptr_Y) s)
      else if op = 5 then Inr (readBack 0 (Some Ptr_Z) s)
      else if op = 6 then Inr (readBack 0 (Some Ptr_I) s)
      else if op = 7 then Inr (readBack 0 (Some Ptr_J) s)
      else if op = 8 then Inr (readBack 0 (Some (Ptr_Ram (A s))) s)
      else if op = 9 then Inr (readBack 0 (Some (Ptr_Ram (B s))) s)
      else if op = 10 then Inr (readBack 0 (Some (Ptr_Ram (C s))) s)
      else if op = 11 then Inr (readBack 0 (Some (Ptr_Ram (X s))) s)
      else if op = 12 then Inr (readBack 0 (Some (Ptr_Ram (Y s))) s)
      else if op = 13 then Inr (readBack 0 (Some (Ptr_Ram (Z s))) s)
      else if op = 14 then Inr (readBack 0 (Some (Ptr_Ram (I s))) s)
      else if op = 15 then Inr (readBack 0 (Some (Ptr_Ram (J s))) s)
      else if op = 16 then
        Inr (readBack 0 (Some (Ptr_Ram (Ram s (PC s) + A s))) (s\<lparr>PC := PC s + 1\<rparr>))
      else if op = 17 then
        Inr (readBack 0 (Some (Ptr_Ram (Ram s (PC s) + B s))) (s\<lparr>PC := PC s + 1\<rparr>))
      else if op = 18 then
        Inr (readBack 0 (Some (Ptr_Ram (Ram s (PC s) + C s))) (s\<lparr>PC := PC s + 1\<rparr>))
      else if op = 19 then
        Inr (readBack 0 (Some (Ptr_Ram (Ram s (PC s) + X s))) (s\<lparr>PC := PC s + 1\<rparr>))
      else if op = 20 then
        Inr (readBack 0 (Some (Ptr_Ram (Ram s (PC s) + Y s))) (s\<lparr>PC := PC s + 1\<rparr>))
      else if op = 21 then
        Inr (readBack 0 (Some (Ptr_Ram (Ram s (PC s) + Z s))) (s\<lparr>PC := PC s + 1\<rparr>))
      else if op = 22 then
        Inr (readBack 0 (Some (Ptr_Ram (Ram s (PC s) + I s))) (s\<lparr>PC := PC s + 1\<rparr>))
      else if op = 23 then
        Inr (readBack 0 (Some (Ptr_Ram (Ram s (PC s) + J s))) (s\<lparr>PC := PC s + 1\<rparr>))
      else if op = 24 then
        Inr (readBack 0 (Some (Ptr_Ram (SP s))) (s\<lparr>SP := SP s + 1\<rparr>))
      else if op = 25 then Inr (readBack 0 (Some (Ptr_Ram (SP s))) s)
      else if op = 26 then
        (let s' = s\<lparr>SP := SP s - 1\<rparr> in Inr (readBack 0 (Some (Ptr_Ram (SP s'))) s'))
      else if op = 27 then Inr (readBack 0 (Some Ptr_SP) s)
      else if op = 28 then Inr (readBack 0 (Some Ptr_PC) s)
      else if op = 29 then Inr (readBack 0 (Some Ptr_O) s)
      else if op = 30 then
        Inr (readBack 0 (Some (Ptr_Ram (Ram s (PC s)))) (s\<lparr>PC := PC s + 1\<rparr>))
      else if op = 31 then Inr (readBack (Ram s (PC s)) None (s\<lparr>PC := PC s + 1\<rparr>))
      else if op \<ge> 64 then Inl Out_of_bounds_operand
      else Inr (readBack (op - 32) None s))"

section \<open>Protected regions\<close>

text \<open>
  The loop over \<^verbatim>\<open>s.Protected\<close>, the same in \<^verbatim>\<open>isProtected\<close> and in the store of
  \<^verbatim>\<open>Step\<close>: it answers at the first region that contains the address and gives up at the
  first one that starts beyond it.
\<close>

fun regionLoop :: "Region list \<Rightarrow> Word \<Rightarrow> bool" where
  "regionLoop [] address = False"
| "regionLoop (region # rest) address =
     (if Contains region address then True
      else if Start region > address then False
      else regionLoop rest address)"

definition isProtected :: "State \<Rightarrow> Word \<Rightarrow> bool" where
  "isProtected s address = regionLoop (Protected s) address"

section \<open>Step\<close>

datatype result = Nil_error | Protection ProtectionError | Panicked panic

text \<open>
  The \<^verbatim>\<open>// execute\<close> switch of \<^verbatim>\<open>Step\<close>. The unsigned 32-bit intermediate results
  are \<open>32 word\<close>s. Go panics on an integer division by zero; a shift by a count of the
  width or more gives 0, as \<open>push_bit\<close> and \<open>drop_bit\<close> do on words.
\<close>

definition execute :: "Word \<Rightarrow> Word \<Rightarrow> Word \<Rightarrow> State \<Rightarrow> panic + (Word \<times> State)" where
  "execute ins a b s =
     (if ins = 0 then Inr (0, s)
      else if ins = 1 then Inr (b, s)
      else if ins = 2 then
        (let result = (ucast a :: 32 word) + ucast b
         in Inr (ucast (result AND 0xFFFF), s\<lparr>O_reg := ucast (drop_bit 16 result)\<rparr>))
      else if ins = 3 then
        (let result = (ucast a :: 32 word) - ucast b
         in Inr (ucast (result AND 0xFFFF), s\<lparr>O_reg := ucast (drop_bit 16 result)\<rparr>))
      else if ins = 4 then
        (let result = (ucast a :: 32 word) * ucast b
         in Inr (ucast (result AND 0xFFFF), s\<lparr>O_reg := ucast (drop_bit 16 result)\<rparr>))
      else if ins = 5 then
        (if b = 0 then Inl Integer_divide_by_zero
         else Inr (a div b, s\<lparr>O_reg := a mod b\<rparr>))
      else if ins = 6 then
        (if b = 0 then Inl Integer_divide_by_zero
         else Inr (a mod b, s))
      else if ins = 7 then
        (let result = push_bit (unat (ucast b :: 32 word)) (ucast a :: 32 word)
         in Inr (ucast (result AND 0xFFFF), s\<lparr>O_reg := ucast (drop_bit 16 result)\<rparr>))
      else if ins = 8 then Inr (drop_bit (unat b) a, s)
      else if ins = 9 then Inr (a AND b, s)
      else if ins = 10 then Inr (a OR b, s)
      else if ins = 11 then Inr (a XOR b, s)
      else if ins = 12 then
        Inr (0, if a \<noteq> b then s\<lparr>PC := PC s + wordCount (Ram s (PC s))\<rparr> else s)
      else if ins = 13 then
        Inr (0, if a = b then s\<lparr>PC := PC s + wordCount (Ram s (PC s))\<rparr> else s)
      else if ins = 14 then
        Inr (0, if a \<le> b then s\<lparr>PC := PC s + wordCount (Ram s (PC s))\<rparr> else s)
      else if ins = 15 then
        Inr (0, if a AND b = 0 then s\<lparr>PC := PC s + wordCount (Ram s (PC s))\<rparr> else s)
      else Inl Out_of_bounds_opcode)"

text \<open>
  The \<^verbatim>\<open>// store\<close> block of \<^verbatim>\<open>Step\<close>. The pointer lies between \<^verbatim>\<open>&s.Ram[0]\<close> and
  \<^verbatim>\<open>&s.Ram[len(s.Ram)-1]\<close> exactly when it names a cell of \<^verbatim>\<open>Ram\<close>, and \<^verbatim>\<open>index\<close> is then
  that cell's index.
\<close>

definition store :: "Word \<Rightarrow> Word \<Rightarrow> Word \<Rightarrow> Word \<Rightarrow> pointer option \<Rightarrow> Word \<Rightarrow> State
    \<Rightarrow> result \<times> State" where
  "store opcode ins a b assignable val s =
     (if ins \<ge> 1 \<and> ins \<le> 11 \<and> assignable \<noteq> None then
        (case assignable of
           Some (Ptr_Ram index) \<Rightarrow>
             (if regionLoop (Protected s) index then
                (Protection \<lparr>Address = index, Opcode = opcode, OperandA = a, OperandB = b\<rparr>, s)
              else (Nil_error, assign (Ptr_Ram index) val s))
         | Some p \<Rightarrow> (Nil_error, assign p val s)
         | None \<Rightarrow> (Nil_error, s))
      else (Nil_error, s))"

text \<open>
  \<^verbatim>\<open>Step\<close> works on the state in place, so a panic or a protection error leaves the
  state as it was at that moment: the second component of the result.
\<close>

definition Step :: "State \<Rightarrow> result \<times> State" where
  "Step s =
     (let opcode = Ram s (PC s);
          s1 = s\<lparr>PC := PC s + 1\<rparr>;
          (ins, a, b) = decodeOpcode opcode
      in case translateOperand a s1 of
           Inl p \<Rightarrow> (Panicked p, s1)
         | Inr (a, assignable, s2) \<Rightarrow>
             (case translateOperand b s2 of
                Inl p \<Rightarrow> (Panicked p, s2)
              | Inr (b, _, s3) \<Rightarrow>
                  (case execute ins a b s3 of
                     Inl p \<Rightarrow> (Panicked p, s3)
                   | Inr (val, s4) \<Rightarrow> store opcode ins a b assignable val s4)))"

section \<open>What the specification says of operands\<close>

text \<open>
  The specification's table of operand codes, for comparison with \<open>translateOperand\<close>:
  a code in 16--23, 30 or 31 reads one more word of the instruction, code 24 (POP) moves
  \<open>SP\<close> up by one and code 26 (PUSH) moves it down by one.
\<close>

definition nextWords :: "Word \<Rightarrow> Word" where
  "nextWords op = (if (16 \<le> op \<and> op \<le> 23) \<or> op = 30 \<or> op = 31 then 1 else 0)"

definition spDelta :: "Word \<Rightarrow> Word" where
  "spDelta op = (if op = 24 then 1 else if op = 26 then - 1 else 0)"

text \<open>
  The state once the instruction word is fetched and operands \<open>a\<close> and \<open>b\<close> are
  translated, as the specification describes it.
\<close>

definition translated :: "State \<Rightarrow> Word \<Rightarrow> Word \<Rightarrow> State" where
  "translated s a b =
     s\<lparr>PC := PC s + 1 + nextWords a + nextWords b, SP := SP s + spDelta a + spDelta b\<rparr>"

text \<open>The predicate under which a conditional instruction skips, by the source's tests.\<close>

definition skipTaken :: "Word \<Rightarrow> Word \<Rightarrow> Word \<Rightarrow> bool" where
  "skipTaken ins a b \<longleftrightarrow>
     (ins = 12 \<and> a \<noteq> b) \<or> (ins = 13 \<and> a = b) \<or> (ins = 14 \<and> a \<le> b)
     \<or> (ins = 15 \<and> a AND b = 0)"

text \<open>
  The exact integer result of ADD (2), SUB (3), MUL (4) and SHL (7), as the specification
  states it: \<open>a + b\<close>, \<open>a - b\<close>, \<open>a * b\<close> and \<open>a * 2^b\<close>.
\<close>

definition trueResult :: "Word \<Rightarrow> Word \<Rightarrow> Word \<Rightarrow> int" where
  "trueResult ins a b =
     (if ins = 2 then uint a + uint b
      else if ins = 3 then uint a - uint b
      else if ins = 4 then uint a * uint b
      else uint a * 2 ^ unat b)"


section \<open>Scenarios\<close>

text \<open>The machine with every register and every memory word zero and nothing protected.\<close>

definition zeroState :: State where
  "zeroState =
     \<lparr>A = 0, B = 0, C = 0, X = 0, Y = 0, Z = 0, I = 0, J = 0, PC = 0, SP = 0, O_reg = 0,
      Ram = (\<lambda>_. 0), Protected = []\<rparr>"

text \<open>The program of the conditional-skip scenario, at address 0.\<close>

definition skipScenario :: State where
  "skipScenario =
     zeroState\<lparr>Ram := (\<lambda>_. 0)(0 := 0xC00D, 1 := 0x7DE1, 2 := 0x1000, 3 := 0x0042, 4 := 0x8401)\<rparr>"

text \<open>
  \<^verbatim>\<open>IFE A, 1\<close> (word \<open>0x840C\<close>: op 12, a = 0, b = 33), whose test fails in the zero
  state, before the three-word instruction \<^verbatim>\<open>SET [0x1000], 0x42\<close>.
\<close>

definition skipThreeWords :: State where
  "skipThreeWords =
     zeroState\<lparr>Ram := (\<lambda>_. 0)(0 := 0x840C, 1 := 0x7DE1, 2 := 0x1000, 3 := 0x0042)\<rparr>"

text \<open>\<^verbatim>\<open>DIV A, 0\<close> (word \<open>0x8005\<close>: op 5, a = 0, b = 32) and \<^verbatim>\<open>MOD A, 0\<close> (\<open>0x8006\<close>).\<close>

definition divByZero :: State where
  "divByZero = zeroState\<lparr>A := 7, Ram := (\<lambda>_. 0)(0 := 0x8005)\<rparr>"

definition modByZero :: State where
  "modByZero = zeroState\<lparr>A := 7, Ram := (\<lambda>_. 0)(0 := 0x8006)\<rparr>"

text \<open>
  \<^verbatim>\<open>SET PUSH, 0x1234\<close> (words \<open>0x7DA1, 0x1234\<close>: op 1, a = 26, b = 31) and
  \<^verbatim>\<open>SET A, POP\<close> (word \<open>0x6001\<close>: op 1, a = 0, b = 24).\<close>

definition stackScenario :: State where
  "stackScenario = zeroState\<lparr>Ram := (\<lambda>_. 0)(0 := 0x7DA1, 1 := 0x1234, 2 := 0x6001)\<rparr>"

text \<open>
  \<^verbatim>\<open>SET [0x1000], 1\<close> (words \<open>0x85E1, 0x1000\<close>: op 1, a = 30, b = 33) with the region
  \<open>[0x1000, 0x1010)\<close> protected.
\<close>

definition protectScenario :: State where
  "protectScenario =
     zeroState\<lparr>Ram := (\<lambda>_. 0)(0 := 0x85E1, 1 := 0x1000),
               Protected := [\<lparr>Start = 0x1000, Length = 0x10\<rparr>]\<rparr>"

text \<open>The same program with two protected regions listed out of order.\<close>

definition unsortedScenario :: State where
  "unsortedScenario =
     zeroState\<lparr>Ram := (\<lambda>_. 0)(0 := 0x85E1, 1 := 0x1000),
               Protected := [\<lparr>Start = 0x2000, Length = 1\<rparr>, \<lparr>Start = 0x1000, Length = 0x10\<rparr>]\<rparr>"

text \<open>\<^verbatim>\<open>SET O, 1\<close> (word \<open>0x85D1\<close>: op 1, a = 29, b = 33).\<close>

definition setOScenario :: State where
  "setOScenario = zeroState\<lparr>Ram := (\<lambda>_. 0)(0 := 0x85D1)\<rparr>"

text \<open>
  \<^verbatim>\<open>IFE PUSH, [0x0005]\<close> (words \<open>0x79AC, 0x0005\<close>: op 12, a = 26, b = 30) in a state
  where the test fails, so that the skip is taken.
\<close>

definition skipWithEffects :: State where
  "skipWithEffects = zeroState\<lparr>Ram := (\<lambda>_. 0)(0 := 0x79AC, 1 := 0x0005, 5 := 0x0009)\<rparr>"

text \<open>
  \<^verbatim>\<open>SET PUSH, 0x1234\<close> with \<open>SP = 0x1001\<close>, so that the push goes to the protected
  address \<open>0x1000\<close>.
\<close>

definition pushFaultScenario :: State where
  "pushFaultScenario =
     zeroState\<lparr>SP := 0x1001, Ram := (\<lambda>_. 0)(0 := 0x7DA1, 1 := 0x1234),
               Protected := [\<lparr>Start = 0x1000, Length = 0x10\<rparr>]\<rparr>"

text \<open>\<^verbatim>\<open>SET A, 1\<close> (word \<open>0x8401\<close>) in a state where \<open>O\<close> holds 5.\<close>

definition keepOScenario :: State where
  "keepOScenario = zeroState\<lparr>O_reg := 5, Ram := (\<lambda>_. 0)(0 := 0x8401)\<rparr>"

text \<open>\<^verbatim>\<open>ADD A, 1\<close> (word \<open>0x8402\<close>: op 2, a = 0, b = 33) with \<open>A = 0xFFFF\<close>.\<close>

definition addScenario :: State where
  "addScenario = zeroState\<lparr>A := 0xFFFF, Ram := (\<lambda>_. 0)(0 := 0x8402)\<rparr>"

text \<open>
  \<^verbatim>\<open>ADD O, 0xFFFF\<close> (words \<open>0x7DD2, 0xFFFF\<close>: op 2, a = 29, b = 31) with \<open>O = 3\<close>, and
  \<^verbatim>\<open>SUB O, 3\<close> (word \<open>0x8DD3\<close>: op 3, a = 29, b = 35) with \<open>O = 5\<close>.
\<close>

definition addOScenario :: State where
  "addOScenario = zeroState\<lparr>O_reg := 3, Ram := (\<lambda>_. 0)(0 := 0x7DD2, 1 := 0xFFFF)\<rparr>"

definition subOScenario :: State where
  "subOScenario = zeroState\<lparr>O_reg := 5, Ram := (\<lambda>_. 0)(0 := 0x8DD3)\<rparr>"

lemmas scenario_defs =
  zeroState_def skipScenario_def skipThreeWords_def divByZero_def modByZero_def
  stackScenario_def protectScenario_def unsortedScenario_def setOScenario_def
  skipWithEffects_def pushFaultScenario_def keepOScenario_def
  addScenario_def addOScenario_def subOScenario_def

lemmas step_defs =
  Step_def decodeOpcode_def translateOperand_def readBack_def execute_def store_def
  wordCount_def Contains_def

section \<open>Decoding stays in range\<close>

lemma decode_bounds:
  "fst (decodeOpcode w) \<le> 15"
  "fst (snd (decodeOpcode w)) \<le> 63"
  "snd (snd (decodeOpcode w)) \<le> 63"
  by (simp_all add: decodeOpcode_def word_and_le1)

lemma range_16_23:
  "((16::Word) \<le> op \<and> op \<le> 23) \<longleftrightarrow>
     (op = 16 \<or> op = 17 \<or> op = 18 \<or> op = 19 \<or> op = 20 \<or> op = 21 \<or> op = 22 \<or> op = 23)"
proof
  assume "16 \<le> op \<and> op \<le> 23"
  then show "op = 16 \<or> op = 17 \<or> op = 18 \<or> op = 19 \<or> op = 20 \<or> op = 21 \<or> op = 22 \<or> op = 23"
    by unat_arith
next
  assume "op = 16 \<or> op = 17 \<or> op = 18 \<or> op = 19 \<or> op = 20 \<or> op = 21 \<or> op = 22 \<or> op = 23"
  then show "16 \<le> op \<and> op \<le> 23"
    by auto
qed

lemma not_ge_64: "(op::Word) \<le> 63 \<Longrightarrow> \<not> 64 \<le> op"
  by unat_arith

lemma ins_cases:
  assumes "(ins::Word) \<le> 15"
  shows "ins = 0 \<or> ins = 1 \<or> ins = 2 \<or> ins = 3 \<or> ins = 4 \<or> ins = 5 \<or> ins = 6 \<or> ins = 7
     \<or> ins = 8 \<or> ins = 9 \<or> ins = 10 \<or> ins = 11 \<or> ins = 12 \<or> ins = 13 \<or> ins = 14 \<or> ins = 15"
  using assms by unat_arith

section \<open>Translation and Step, phase by phase\<close>

lemma translate_result:
  assumes "op \<le> 63"
  shows "\<exists>v p. translateOperand op s =
            Inr (v, p, s\<lparr>PC := PC s + nextWords op, SP := SP s + spDelta op\<rparr>)
          \<and> (\<forall>q. p = Some q \<longrightarrow>
                v = deref (s\<lparr>PC := PC s + nextWords op, SP := SP s + spDelta op\<rparr>) q)"
  using not_ge_64[OF assms]
  by (simp add: translateOperand_def readBack_def nextWords_def spDelta_def Let_def range_16_23)

lemma Step_eq:
  assumes "decodeOpcode (Ram s (PC s)) = (ins, a, b)"
  shows "\<exists>va pa vb pb.
     translateOperand a (s\<lparr>PC := PC s + 1\<rparr>)
        = Inr (va, pa, s\<lparr>PC := PC s + 1 + nextWords a, SP := SP s + spDelta a\<rparr>)
     \<and> translateOperand b (s\<lparr>PC := PC s + 1 + nextWords a, SP := SP s + spDelta a\<rparr>)
        = Inr (vb, pb, translated s a b)
     \<and> Step s = (case execute ins va vb (translated s a b) of
                   Inl p \<Rightarrow> (Panicked p, translated s a b)
                 | Inr (val, s4) \<Rightarrow> store (Ram s (PC s)) ins va vb pa val s4)"
proof -
  have a: "a \<le> 63" and b: "b \<le> 63"
    using decode_bounds(2,3)[of "Ram s (PC s)"] assms by simp_all
  obtain va pa where ta: "translateOperand a (s\<lparr>PC := PC s + 1\<rparr>)
        = Inr (va, pa, s\<lparr>PC := PC s + 1 + nextWords a, SP := SP s + spDelta a\<rparr>)"
    using translate_result[OF a, of "s\<lparr>PC := PC s + 1\<rparr>"] by auto
  obtain vb pb where tb:
    "translateOperand b (s\<lparr>PC := PC s + 1 + nextWords a, SP := SP s + spDelta a\<rparr>)
        = Inr (vb, pb, translated s a b)"
    using translate_result[OF b, of "s\<lparr>PC := PC s + 1 + nextWords a, SP := SP s + spDelta a\<rparr>"]
    by (auto simp add: translated_def)
  have "Step s = (case execute ins va vb (translated s a b) of
                   Inl p \<Rightarrow> (Panicked p, translated s a b)
                 | Inr (val, s4) \<Rightarrow> store (Ram s (PC s)) ins va vb pa val s4)"
    by (simp add: Step_def assms ta tb)
  with ta tb show ?thesis by blast
qed

lemma execute_panic:
  assumes "ins \<le> 15" and "execute ins a b s = Inl p"
  shows "p = Integer_divide_by_zero \<and> (ins = 5 \<or> ins = 6) \<and> b = 0"
  using ins_cases[OF assms(1)] assms(2)
  by (auto simp add: execute_def Let_def split: if_splits)

lemma store_no_panic: "fst (store opcode ins a b assignable val s) \<noteq> Panicked p"
  by (simp add: store_def split: option.splits pointer.splits)

lemma Step_panic:
  assumes "fst (Step s) = Panicked p"
  shows "p = Integer_divide_by_zero"
proof -
  obtain ins a b where d: "decodeOpcode (Ram s (PC s)) = (ins, a, b)"
    by (cases "decodeOpcode (Ram s (PC s))") auto
  have ins: "ins \<le> 15"
    using decode_bounds(1)[of "Ram s (PC s)"] d by simp
  obtain va pa vb where st:
    "Step s = (case execute ins va vb (translated s a b) of
                   Inl p \<Rightarrow> (Panicked p, translated s a b)
                 | Inr (val, s4) \<Rightarrow> store (Ram s (PC s)) ins va vb pa val s4)"
    using Step_eq[OF d] by blast
  show ?thesis
  proof (cases "execute ins va vb (translated s a b)")
    case (Inl q)
    then have "p = q" using st assms by simp
    then show ?thesis using execute_panic[OF ins Inl] by simp
  next
    case (Inr r)
    then show ?thesis
      using st assms store_no_panic by (cases r) auto
  qed
qed

section \<open>The 32-bit intermediate result\<close>

lemma low_mask: "(0xFFFF :: 32 word) = mask 16"
  by (simp add: mask_eq_exp_minus_1)

lemma uint_up: "uint (ucast (a::Word) :: 32 word) = uint a"
proof -
  have "uint a < 2 ^ 16" using uint_lt2p[of a] by simp
  then have "uint a mod 2 ^ 32 = uint a" by simp
  then show ?thesis by (simp add: unsigned_ucast_eq take_bit_eq_mod)
qed

lemma unat_up: "unat (ucast (a::Word) :: 32 word) = unat a"
  using uint_up[of a] by (simp only: unat_eq_nat_uint)

lemma uint_high:
  fixes r :: "32 word"
  shows "uint (ucast (drop_bit 16 r) :: Word) = uint r div 65536"
proof -
  have "uint r < 2 ^ 32" using uint_lt2p[of r] by simp
  then have small: "uint r div 2 ^ 16 < 2 ^ 16" by simp
  have "uint (drop_bit 16 r) = uint r div 2 ^ 16"
    by (simp add: drop_bit_eq_div uint_div_distrib)
  moreover have "uint r div 2 ^ 16 mod 2 ^ 16 = uint r div 2 ^ 16"
    using small by (intro mod_pos_pos_trivial) (simp_all add: pos_imp_zdiv_nonneg_iff)
  ultimately show ?thesis
    by (simp add: unsigned_ucast_eq take_bit_eq_mod)
qed

lemma uint_low:
  fixes r :: "32 word"
  shows "uint (ucast (r AND 0xFFFF) :: Word) = uint r mod 65536"
  unfolding low_mask
  by (simp add: unsigned_ucast_eq take_bit_eq_mod uint_mod_distrib flip: take_bit_eq_mask)

lemma high_low_join:
  fixes r :: "32 word"
  shows "uint (ucast (drop_bit 16 r) :: Word) * 65536 + uint (ucast (r AND 0xFFFF) :: Word)
           = uint r"
  unfolding uint_high uint_low by simp

lemma add32:
  "uint ((ucast (a::Word) :: 32 word) + ucast (b::Word)) = (uint a + uint b) mod 4294967296"
  by (simp add: uint_word_ariths uint_up)

lemma sub32:
  "uint ((ucast (a::Word) :: 32 word) - ucast (b::Word)) = (uint a - uint b) mod 4294967296"
  by (simp add: uint_word_ariths uint_up)

lemma mul32:
  "uint ((ucast (a::Word) :: 32 word) * ucast (b::Word)) = (uint a * uint b) mod 4294967296"
  by (simp add: uint_word_ariths uint_up)

lemma shl32:
  "uint (push_bit (unat (ucast (b::Word) :: 32 word)) (ucast (a::Word) :: 32 word))
     = (uint a * 2 ^ unat b) mod 4294967296"
proof -
  have "uint (push_bit (unat b) (ucast a :: 32 word))
          = take_bit 32 (push_bit (unat b) (uint (ucast a :: 32 word)))"
    by (simp only: unsigned_push_bit_eq) simp
  then show ?thesis
    by (simp add: unat_up uint_up push_bit_eq_mult take_bit_eq_mod)
qed

lemma int_sub_borrow:
  fixes x y :: int
  assumes "0 \<le> x" "x < y" "y < 65536"
  shows "(x - y) mod 4294967296 = x - y + 4294967296"
    and "(x - y + 4294967296) div 65536 = 65535"
proof -
  have "(x - y + 4294967296) mod 4294967296 = x - y + 4294967296"
    using assms by (intro mod_pos_pos_trivial) simp_all
  then show "(x - y) mod 4294967296 = x - y + 4294967296" by simp
  have "x - y + 4294967296 = (x - y + 65536) + 65535 * 65536" by simp
  moreover have "(x - y + 65536) div 65536 = 0"
    using assms by (intro div_pos_pos_trivial) simp_all
  ultimately show "(x - y + 4294967296) div 65536 = 65535"
    by (simp only: div_mult_self3)
qed

lemma int_sub_small:
  fixes x y :: int
  assumes "0 \<le> y" "y \<le> x" "x < 65536"
  shows "(x - y) mod 4294967296 = x - y" "(x - y) div 65536 = 0"
  using assms by simp_all

lemma sub_high:
  "(ucast (drop_bit 16 ((ucast (a::Word) :: 32 word) - ucast (b::Word))) :: Word)
     = (if a < b then 0xFFFF else 0)"
proof -
  let ?r = "(ucast a :: 32 word) - ucast b"
  have r: "uint ?r = (uint a - uint b) mod 4294967296" by (rule sub32)
  have a: "uint a < 65536" and b: "uint b < 65536"
    using uint_lt2p[of a] uint_lt2p[of b] by simp_all
  have hi: "uint (ucast (drop_bit 16 ?r) :: Word) = uint ?r div 65536"
    by (rule uint_high)
  show ?thesis
  proof (cases "a < b")
    case True
    then have lt: "uint a < uint b" by (simp add: word_less_def)
    have "uint ?r div 65536 = 65535"
      using int_sub_borrow[OF uint_nonnegative[of a] lt b] r by simp
    then have "uint (ucast (drop_bit 16 ?r) :: Word) = uint (0xFFFF :: Word)" using hi by simp
    then show ?thesis using True by (simp only: word_uint_eq_iff if_True)
  next
    case False
    then have le: "uint b \<le> uint a" by (simp add: word_less_def)
    have "uint ?r div 65536 = 0"
      using int_sub_small[OF uint_nonnegative[of b] le a] r by simp
    then have "uint (ucast (drop_bit 16 ?r) :: Word) = uint (0 :: Word)" using hi by simp
    then show ?thesis using False by (simp only: word_uint_eq_iff if_False)
  qed
qed

section \<open>What execute and store leave alone\<close>

lemma ins_le_11_cases:
  assumes "(ins::Word) \<le> 11"
  shows "ins = 0 \<or> ins = 1 \<or> ins = 2 \<or> ins = 3 \<or> ins = 4 \<or> ins = 5 \<or> ins = 6 \<or> ins = 7
     \<or> ins = 8 \<or> ins = 9 \<or> ins = 10 \<or> ins = 11"
  using assms by unat_arith

lemma execute_arith_frame:
  assumes "ins \<le> 11" and "execute ins a b s = Inr (val, s4)"
  shows "s4 = s\<lparr>O_reg := O_reg s4\<rparr>"
  using ins_le_11_cases[OF assms(1)] assms(2)
  by (auto simp add: execute_def Let_def split: if_splits)


lemma execute_keeps_O:
  assumes "ins \<in> {1, 6, 8, 9, 10, 11, 12, 13, 14, 15}"
    and "execute ins a b s = Inr (val, s4)"
  shows "O_reg s4 = O_reg s"
  using assms
  by (auto simp add: execute_def Let_def split: if_splits)

lemma execute_conditional:
  assumes "ins = 12 \<or> ins = 13 \<or> ins = 14 \<or> ins = 15"
  shows "execute ins a b s =
           Inr (0, if skipTaken ins a b then s\<lparr>PC := PC s + wordCount (Ram s (PC s))\<rparr> else s)"
  using assms by (elim disjE) (simp_all add: execute_def skipTaken_def)

lemma store_Protection:
  assumes "store opcode ins a b p val s = (Protection e, s')"
  shows "s' = s \<and> 1 \<le> ins \<and> ins \<le> 11 \<and> p = Some (Ptr_Ram (Address e))
     \<and> regionLoop (Protected s) (Address e)
     \<and> e = \<lparr>Address = Address e, Opcode = opcode, OperandA = a, OperandB = b\<rparr>"
proof (cases p)
  case None
  then show ?thesis using assms by (simp add: store_def)
next
  case (Some q)
  then show ?thesis using assms
    by (cases q) (auto simp add: store_def split: if_splits)
qed

lemma store_keeps_O:
  assumes "p \<noteq> Some Ptr_O"
  shows "O_reg (snd (store opcode ins a b p val s)) = O_reg s"
proof (cases p)
  case None
  then show ?thesis by (simp add: store_def)
next
  case (Some q)
  then show ?thesis using assms
    by (cases q) (simp_all add: store_def)
qed

lemma store_conditional:
  assumes "12 \<le> ins"
  shows "store opcode ins a b p val s = (Nil_error, s)"
proof -
  have "\<not> ins \<le> 11" using assms by unat_arith
  then show ?thesis by (simp add: store_def)
qed

lemma translate_ptr_O:
  assumes "a \<le> 63" and "translateOperand a s = Inr (v, Some Ptr_O, s')"
  shows "a = 29"
  using not_ge_64[OF assms(1)] assms(2)
  by (simp add: translateOperand_def readBack_def Let_def split: if_splits)



section \<open>Single operands and the source of a protection error\<close>

lemma translate_POP:
  "translateOperand 24 s = Inr (Ram s (SP s), Some (Ptr_Ram (SP s)), s\<lparr>SP := SP s + 1\<rparr>)"
  by (simp add: translateOperand_def readBack_def)

lemma translate_PUSH:
  "translateOperand 26 s
     = Inr (Ram s (SP s - 1), Some (Ptr_Ram (SP s - 1)), s\<lparr>SP := SP s - 1\<rparr>)"
  by (simp add: translateOperand_def readBack_def)

lemma unat_dec: "unat ((w::Word) - 1) = (unat w + 65535) mod 65536"
proof -
  have "w - 1 = w + 65535" by simp
  then show ?thesis by (simp only: unat_word_ariths) simp
qed

lemma unat_inc: "unat ((w::Word) + 1) = (unat w + 1) mod 65536"
  by (simp add: unat_word_ariths)

lemma translate_literal:
  "translateOperand 31 s = Inr (Ram s (PC s), None, s\<lparr>PC := PC s + 1\<rparr>)"
  by (simp add: translateOperand_def readBack_def)

lemma ins_ge_12_cases:
  assumes "(ins::Word) \<le> 15" and "12 \<le> ins"
  shows "ins = 12 \<or> ins = 13 \<or> ins = 14 \<or> ins = 15"
  using assms by unat_arith




section \<open>Overflow of the arithmetic instructions\<close>

lemma execute_ADD:
  "\<exists>val s4. execute 2 a b s = Inr (val, s4)
     \<and> (uint (O_reg s4) * 2 ^ 16 + uint val) mod 2 ^ 32 = (uint a + uint b) mod 2 ^ 32"
  by (simp add: execute_def Let_def high_low_join add32)

lemma execute_SUB:
  "\<exists>val s4. execute 3 a b s = Inr (val, s4)
     \<and> (uint (O_reg s4) * 2 ^ 16 + uint val) mod 2 ^ 32 = (uint a - uint b) mod 2 ^ 32
     \<and> O_reg s4 = (if a < b then 0xFFFF else 0)"
proof -
  define r :: "32 word" where "r = ucast a - ucast b"
  define s' where "s' = s\<lparr>O_reg := ucast (drop_bit 16 r)\<rparr>"
  define val :: Word where "val = ucast (r AND 0xFFFF)"
  have ex: "execute 3 a b s = Inr (val, s')"
    by (simp add: execute_def Let_def r_def s'_def val_def)
  have c: "(uint (O_reg s') * 2 ^ 16 + uint val) mod 2 ^ 32 = (uint a - uint b) mod 2 ^ 32"
    by (simp add: s'_def val_def r_def high_low_join sub32)
  have o: "O_reg s' = (if a < b then 0xFFFF else 0)"
    using sub_high[of a b] by (simp add: s'_def r_def)
  from ex c o show ?thesis by blast
qed

lemma execute_MUL:
  "\<exists>val s4. execute 4 a b s = Inr (val, s4)
     \<and> (uint (O_reg s4) * 2 ^ 16 + uint val) mod 2 ^ 32 = (uint a * uint b) mod 2 ^ 32"
  by (simp add: execute_def Let_def high_low_join mul32)

lemma execute_SHL:
  "\<exists>val s4. execute 7 a b s = Inr (val, s4)
     \<and> (uint (O_reg s4) * 2 ^ 16 + uint val) mod 2 ^ 32 = (uint a * 2 ^ unat b) mod 2 ^ 32"
  by (simp add: execute_def Let_def high_low_join shl32)

lemma execute_overflow:
  assumes "ins = 2 \<or> ins = 3 \<or> ins = 4 \<or> ins = 7"
  shows "\<exists>val s4. execute ins a b s = Inr (val, s4)
     \<and> (uint (O_reg s4) * 2 ^ 16 + uint val) mod 2 ^ 32 = trueResult ins a b mod 2 ^ 32
     \<and> (ins = 3 \<longrightarrow> O_reg s4 = (if a < b then 0xFFFF else 0))"
  using assms
proof (elim disjE)
  assume "ins = 2"
  then show ?thesis using execute_ADD[of a b s] by (simp add: trueResult_def)
next
  assume "ins = 3"
  then show ?thesis using execute_SUB[of a b s] by (simp add: trueResult_def)
next
  assume "ins = 4"
  then show ?thesis using execute_MUL[of a b s] by (simp add: trueResult_def)
next
  assume "ins = 7"
  then show ?thesis using execute_SHL[of a b s] by (simp add: trueResult_def)
qed

lemma store_writes:
  assumes "1 \<le> ins \<and> ins \<le> 11"
    and "fst (store opcode ins a b (Some p) val s) = Nil_error"
  shows "deref (snd (store opcode ins a b (Some p) val s)) p = val"
  using assms by (cases p) (simp_all add: store_def split: if_splits)

section \<open>Claims\<close>

text \<open>
  C1. The claim: \<open>wordCount\<close> returns 1 plus one for each operand whose code lies in
  16--23, 30 or 31, so that a skipping conditional lands exactly past the following
  instruction. In the code only code 31 adds a word. The instruction word \<open>0x7DE1\<close>
  (\<^verbatim>\<open>SET [next], next\<close>, operands 30 and 31) takes three words and is counted as two, the
  word \<open>0x01E1\<close> (operand 30 and register A) takes two and is counted as one, and the
  failing \<^verbatim>\<open>IFE A, 1\<close> before \<open>0x7DE1, 0x1000, 0x0042\<close> leaves \<open>PC\<close> at 3, on the last word
  of the instruction it should have skipped.
\<close>

theorem C1_wordCount_counts_only_literal:
  "decodeOpcode 0x7DE1 = (1, 30, 31) \<and> wordCount 0x7DE1 = 2
   \<and> decodeOpcode 0x01E1 = (1, 30, 0) \<and> wordCount 0x01E1 = 1
   \<and> Step skipThreeWords = (Nil_error, skipThreeWords\<lparr>PC := 3\<rparr>)"
  by (simp add: scenario_defs step_defs)

text \<open>
  C2. The claim: with \<open>b = 0\<close>, DIV yields \<open>val = 0\<close> and \<open>O = 0\<close>, MOD yields \<open>val = 0\<close>,
  and \<open>Step\<close> is not aborted. In the code both divide by \<open>b\<close> unguarded, which panics:
  the execute switch fails for every \<open>a\<close>, and \<open>Step\<close> on \<^verbatim>\<open>DIV A, 0\<close> and on
  \<^verbatim>\<open>MOD A, 0\<close> ends in the panic, with \<open>A\<close> and \<open>O\<close> as they were.
\<close>

theorem C2_zero_divisor_panics:
  "execute 5 a 0 s = Inl Integer_divide_by_zero
   \<and> execute 6 a 0 s = Inl Integer_divide_by_zero
   \<and> Step divByZero = (Panicked Integer_divide_by_zero, divByZero\<lparr>PC := 1\<rparr>)
   \<and> Step modByZero = (Panicked Integer_divide_by_zero, modByZero\<lparr>PC := 1\<rparr>)"
  by (simp add: scenario_defs step_defs)




text \<open>
  C4, as stated: after ADD, SUB, MUL or SHL the pair \<open>(O, val)\<close> satisfies
  \<open>O * 2^16 + val \<equiv> true_result (mod 2^32)\<close>, and SUB yields \<open>O = 0xFFFF\<close> iff \<open>a < b\<close> and
  \<open>O = 0\<close> otherwise. This fails when operand \<open>a\<close> is \<open>O\<close> itself (code 29), since the
  store then writes \<open>val\<close> over the overflow: \<^verbatim>\<open>ADD O, 0xFFFF\<close> with \<open>O = 3\<close> computes
  \<open>0x10002\<close>, that is \<open>val = 2\<close> and overflow 1, and ends with \<open>O = 2\<close>; \<^verbatim>\<open>SUB O, 3\<close> with
  \<open>O = 5\<close> ends with \<open>O = 2\<close>, not 0.
\<close>

theorem C4_counterexample:
  "decodeOpcode (Ram addOScenario (PC addOScenario)) = (2, 29, 31)
   \<and> O_reg addOScenario = 3
   \<and> Ram addOScenario (PC addOScenario + 1) = 0xFFFF
   \<and> execute 2 3 0xFFFF (addOScenario\<lparr>PC := 2\<rparr>) = Inr (2, addOScenario\<lparr>PC := 2, O_reg := 1\<rparr>)
   \<and> Step addOScenario = (Nil_error, addOScenario\<lparr>PC := 2, O_reg := 2\<rparr>)
   \<and> (uint (O_reg (snd (Step addOScenario))) * 2 ^ 16 + uint (2::Word)) mod 2 ^ 32
       \<noteq> (uint (3::Word) + uint (0xFFFF::Word)) mod 2 ^ 32
   \<and> decodeOpcode (Ram subOScenario (PC subOScenario)) = (3, 29, 35)
   \<and> O_reg subOScenario = 5
   \<and> \<not> (5::Word) < 3
   \<and> Step subOScenario = (Nil_error, subOScenario\<lparr>PC := 1, O_reg := 2\<rparr>)
   \<and> O_reg (snd (Step subOScenario)) \<noteq> 0"
  by (simp add: scenario_defs step_defs)

text \<open>
  C4, amended. For every ADD, SUB, MUL or SHL instruction whose operand \<open>a\<close> is not the
  register \<open>O\<close> (code 29), with operand values \<open>a\<close> and \<open>b\<close>: after \<open>Step\<close> the register \<open>O\<close>
  and the value \<open>val\<close> that the instruction computes satisfy
  \<open>O * 2^16 + val \<equiv> true_result (mod 2^32)\<close>, the true result being \<open>a + b\<close>, \<open>a - b\<close>,
  \<open>a * b\<close> and \<open>a * 2^b\<close> over the integers, and SUB leaves \<open>O = 0xFFFF\<close> when \<open>a < b\<close> and
  \<open>O = 0\<close> otherwise. The value \<open>val\<close> is the one \<open>Step\<close> stores: when \<open>Step\<close> returns no
  error, the place operand \<open>a\<close> names holds it.
\<close>

theorem C4_overflow_after_Step:
  assumes d: "decodeOpcode (Ram s (PC s)) = (ins, a, b)"
    and i: "ins = 2 \<or> ins = 3 \<or> ins = 4 \<or> ins = 7"
    and a: "a \<noteq> 29"
  shows "\<exists>va pa vb pb val s4.
      translateOperand a (s\<lparr>PC := PC s + 1\<rparr>)
        = Inr (va, pa, s\<lparr>PC := PC s + 1 + nextWords a, SP := SP s + spDelta a\<rparr>)
    \<and> translateOperand b (s\<lparr>PC := PC s + 1 + nextWords a, SP := SP s + spDelta a\<rparr>)
        = Inr (vb, pb, translated s a b)
    \<and> execute ins va vb (translated s a b) = Inr (val, s4)
    \<and> Step s = store (Ram s (PC s)) ins va vb pa val s4
    \<and> (uint (O_reg (snd (Step s))) * 2 ^ 16 + uint val) mod 2 ^ 32
         = trueResult ins va vb mod 2 ^ 32
    \<and> (ins = 3 \<longrightarrow> O_reg (snd (Step s)) = (if va < vb then 0xFFFF else 0))
    \<and> (fst (Step s) = Nil_error \<longrightarrow> (\<forall>p. pa = Some p \<longrightarrow> deref (snd (Step s)) p = val))"
proof -
  obtain va pa vb pb where ta: "translateOperand a (s\<lparr>PC := PC s + 1\<rparr>)
        = Inr (va, pa, s\<lparr>PC := PC s + 1 + nextWords a, SP := SP s + spDelta a\<rparr>)"
    and tb: "translateOperand b (s\<lparr>PC := PC s + 1 + nextWords a, SP := SP s + spDelta a\<rparr>)
        = Inr (vb, pb, translated s a b)"
    and st: "Step s = (case execute ins va vb (translated s a b) of
                   Inl p \<Rightarrow> (Panicked p, translated s a b)
                 | Inr (val, s4) \<Rightarrow> store (Ram s (PC s)) ins va vb pa val s4)"
    using Step_eq[OF d] by blast
  obtain val s4 where ex: "execute ins va vb (translated s a b) = Inr (val, s4)"
    and rel: "(uint (O_reg s4) * 2 ^ 16 + uint val) mod 2 ^ 32 = trueResult ins va vb mod 2 ^ 32"
    and sub: "ins = 3 \<longrightarrow> O_reg s4 = (if va < vb then 0xFFFF else 0)"
    using execute_overflow[OF i, of va vb "translated s a b"] by blast
  have step: "Step s = store (Ram s (PC s)) ins va vb pa val s4"
    using st ex by simp
  have "a \<le> 63"
    using decode_bounds(2)[of "Ram s (PC s)"] d by simp
  then have pa: "pa \<noteq> Some Ptr_O"
    using translate_ptr_O[of a "s\<lparr>PC := PC s + 1\<rparr>" va] ta a by auto
  have o: "O_reg (snd (Step s)) = O_reg s4"
    unfolding step by (rule store_keeps_O[OF pa])
  have range: "1 \<le> ins \<and> ins \<le> 11"
    using i by (elim disjE) simp_all
  have written: "fst (Step s) = Nil_error \<longrightarrow> (\<forall>p. pa = Some p \<longrightarrow> deref (snd (Step s)) p = val)"
    unfolding step using store_writes[OF range] by blast
  have r1: "(uint (O_reg (snd (Step s))) * 2 ^ 16 + uint val) mod 2 ^ 32
         = trueResult ins va vb mod 2 ^ 32"
    unfolding o by (rule rel)
  have r2: "ins = 3 \<longrightarrow> O_reg (snd (Step s)) = (if va < vb then 0xFFFF else 0)"
    unfolding o by (rule sub)
  from ta tb ex step r1 r2 written show ?thesis by blast
qed

theorem C4_overflow_after_Step_witness:
  "decodeOpcode (Ram addScenario (PC addScenario)) = (2, 0, 33)
   \<and> A addScenario = 0xFFFF
   \<and> Step addScenario = (Nil_error, addScenario\<lparr>A := 0, PC := 1, O_reg := 1\<rparr>)
   \<and> O_reg (snd (Step addScenario)) = 1
   \<and> (uint (O_reg (snd (Step addScenario))) * 2 ^ 16 + uint (0::Word)) mod 2 ^ 32
       = trueResult 2 0xFFFF 1 mod 2 ^ 32
   \<and> trueResult 2 0xFFFF 1 = 65536"
proof -
  have d: "decodeOpcode (Ram addScenario (PC addScenario)) = (2, 0, 33)"
    by (simp add: scenario_defs step_defs)
  have i: "(2::Word) = 2 \<or> (2::Word) = 3 \<or> (2::Word) = 4 \<or> (2::Word) = 7" by simp
  have a: "(0::Word) \<noteq> 29" by simp
  have a0: "A addScenario = 0xFFFF"
    by (simp add: scenario_defs)
  have st: "Step addScenario = (Nil_error, addScenario\<lparr>A := 0, PC := 1, O_reg := 1\<rparr>)"
    by (simp add: scenario_defs step_defs)
  have t: "trueResult 2 0xFFFF 1 = 65536"
    by (simp add: trueResult_def)
  obtain va pa vb pb val s4 where
    ta: "translateOperand 0 (addScenario\<lparr>PC := PC addScenario + 1\<rparr>)
        = Inr (va, pa, addScenario\<lparr>PC := PC addScenario + 1 + nextWords 0,
                                   SP := SP addScenario + spDelta 0\<rparr>)"
    and tb: "translateOperand 33 (addScenario\<lparr>PC := PC addScenario + 1 + nextWords 0,
                                   SP := SP addScenario + spDelta 0\<rparr>)
        = Inr (vb, pb, translated addScenario 0 33)"
    and ex: "execute 2 va vb (translated addScenario 0 33) = Inr (val, s4)"
    and rel: "(uint (O_reg (snd (Step addScenario))) * 2 ^ 16 + uint val) mod 2 ^ 32
         = trueResult 2 va vb mod 2 ^ 32"
    using C4_overflow_after_Step[OF d i a] by blast
  have va: "va = 0xFFFF"
    using ta
    by (simp add: scenario_defs translateOperand_def readBack_def nextWords_def spDelta_def)
  have vb: "vb = 1"
    using tb
    by (simp add: scenario_defs translateOperand_def readBack_def nextWords_def spDelta_def)
  have val: "val = 0"
    using ex unfolding va vb by (simp add: execute_def)
  have "(uint (O_reg (snd (Step addScenario))) * 2 ^ 16 + uint (0::Word)) mod 2 ^ 32
       = trueResult 2 0xFFFF 1 mod 2 ^ 32"
    using rel unfolding va vb val .
  moreover have "O_reg (snd (Step addScenario)) = 1"
    using st by simp
  ultimately show ?thesis
    using d a0 st t by blast
qed

text \<open>
  C5. In every \<open>Step\<close> operand \<open>a\<close> is translated first, in the state left by the fetch,
  and operand \<open>b\<close> in the state \<open>a\<close> left. Translating an operand moves \<open>PC\<close> by one
  exactly for the codes 16--23, 30 and 31 and not at all otherwise (\<open>nextWords\<close>), so the
  literal of \<open>b\<close> is the word after the extra word of \<open>a\<close>; code 24 reads the cell at \<open>SP\<close> and
  then increments \<open>SP\<close>; code 26 decrements \<open>SP\<close> and then names the cell at the new \<open>SP\<close>. A
  conditional whose skip is taken keeps these moves of \<open>PC\<close> and \<open>SP\<close> and adds
  \<open>wordCount\<close> of the next word to \<open>PC\<close>.
\<close>

theorem C5_operand_side_effects:
  assumes d: "decodeOpcode (Ram s (PC s)) = (ins, a, b)"
  shows "\<exists>va pa vb pb.
      translateOperand a (s\<lparr>PC := PC s + 1\<rparr>)
        = Inr (va, pa, s\<lparr>PC := PC s + 1 + nextWords a, SP := SP s + spDelta a\<rparr>)
    \<and> translateOperand b (s\<lparr>PC := PC s + 1 + nextWords a, SP := SP s + spDelta a\<rparr>)
        = Inr (vb, pb, translated s a b)
    \<and> (a = 31 \<longrightarrow> va = Ram s (PC s + 1))
    \<and> (b = 31 \<longrightarrow> vb = Ram s (PC s + 1 + nextWords a))
    \<and> Step s = (case execute ins va vb (translated s a b) of
                  Inl p \<Rightarrow> (Panicked p, translated s a b)
                | Inr (val, s4) \<Rightarrow> store (Ram s (PC s)) ins va vb pa val s4)
    \<and> (12 \<le> ins \<and> skipTaken ins va vb \<longrightarrow>
          fst (Step s) = Nil_error
          \<and> SP (snd (Step s)) = SP s + spDelta a + spDelta b
          \<and> PC (snd (Step s)) = PC s + 1 + nextWords a + nextWords b
               + wordCount (Ram s (PC s + 1 + nextWords a + nextWords b)))
    \<and> translateOperand 24 s = Inr (Ram s (SP s), Some (Ptr_Ram (SP s)), s\<lparr>SP := SP s + 1\<rparr>)
    \<and> translateOperand 26 s
        = Inr (Ram s (SP s - 1), Some (Ptr_Ram (SP s - 1)), s\<lparr>SP := SP s - 1\<rparr>)"
proof -
  obtain va pa vb pb where ta: "translateOperand a (s\<lparr>PC := PC s + 1\<rparr>)
        = Inr (va, pa, s\<lparr>PC := PC s + 1 + nextWords a, SP := SP s + spDelta a\<rparr>)"
    and tb: "translateOperand b (s\<lparr>PC := PC s + 1 + nextWords a, SP := SP s + spDelta a\<rparr>)
        = Inr (vb, pb, translated s a b)"
    and st: "Step s = (case execute ins va vb (translated s a b) of
                   Inl p \<Rightarrow> (Panicked p, translated s a b)
                 | Inr (val, s4) \<Rightarrow> store (Ram s (PC s)) ins va vb pa val s4)"
    using Step_eq[OF d] by blast
  have la: "a = 31 \<longrightarrow> va = Ram s (PC s + 1)"
    using ta by (auto simp add: translate_literal)
  have lb: "b = 31 \<longrightarrow> vb = Ram s (PC s + 1 + nextWords a)"
    using tb by (auto simp add: translate_literal)
  have ins: "ins \<le> 15"
    using decode_bounds(1)[of "Ram s (PC s)"] d by simp
  have cond: "12 \<le> ins \<and> skipTaken ins va vb \<longrightarrow>
          fst (Step s) = Nil_error
          \<and> SP (snd (Step s)) = SP s + spDelta a + spDelta b
          \<and> PC (snd (Step s)) = PC s + 1 + nextWords a + nextWords b
               + wordCount (Ram s (PC s + 1 + nextWords a + nextWords b))"
  proof
    assume h: "12 \<le> ins \<and> skipTaken ins va vb"
    then have c: "ins = 12 \<or> ins = 13 \<or> ins = 14 \<or> ins = 15"
      using ins_ge_12_cases[OF ins] by simp
    have "Step s = (Nil_error,
        (translated s a b)\<lparr>PC := PC (translated s a b)
           + wordCount (Ram (translated s a b) (PC (translated s a b)))\<rparr>)"
      using st h by (simp add: execute_conditional[OF c] store_conditional)
    then show "fst (Step s) = Nil_error
          \<and> SP (snd (Step s)) = SP s + spDelta a + spDelta b
          \<and> PC (snd (Step s)) = PC s + 1 + nextWords a + nextWords b
               + wordCount (Ram s (PC s + 1 + nextWords a + nextWords b))"
      by (simp add: translated_def)
  qed
  show ?thesis
    using ta tb la lb st cond translate_POP[of s] translate_PUSH[of s] by blast
qed

theorem C5_operand_side_effects_witness:
  "decodeOpcode (Ram skipWithEffects (PC skipWithEffects)) = (12, 26, 30)
   \<and> translateOperand 26 (skipWithEffects\<lparr>PC := 1\<rparr>)
       = Inr (0, Some (Ptr_Ram 0xFFFF), skipWithEffects\<lparr>PC := 1, SP := 0xFFFF\<rparr>)
   \<and> translateOperand 30 (skipWithEffects\<lparr>PC := 1, SP := 0xFFFF\<rparr>)
       = Inr (9, Some (Ptr_Ram 5), skipWithEffects\<lparr>PC := 2, SP := 0xFFFF\<rparr>)
   \<and> skipTaken 12 0 9
   \<and> Step skipWithEffects = (Nil_error, skipWithEffects\<lparr>PC := 3, SP := 0xFFFF\<rparr>)
   \<and> (\<exists>va vb. 12 \<le> (12::Word) \<and> skipTaken 12 va vb
         \<and> SP (snd (Step skipWithEffects)) = SP skipWithEffects + spDelta 26 + spDelta 30
         \<and> PC (snd (Step skipWithEffects)) = PC skipWithEffects + 1 + nextWords 26 + nextWords 30
              + wordCount (Ram skipWithEffects
                  (PC skipWithEffects + 1 + nextWords 26 + nextWords 30)))"
proof -
  have d: "decodeOpcode (Ram skipWithEffects (PC skipWithEffects)) = (12, 26, 30)"
    by (simp add: scenario_defs step_defs)
  have ta: "translateOperand 26 (skipWithEffects\<lparr>PC := 1\<rparr>)
       = Inr (0, Some (Ptr_Ram 0xFFFF), skipWithEffects\<lparr>PC := 1, SP := 0xFFFF\<rparr>)"
    by (simp add: scenario_defs step_defs)
  have tb: "translateOperand 30 (skipWithEffects\<lparr>PC := 1, SP := 0xFFFF\<rparr>)
       = Inr (9, Some (Ptr_Ram 5), skipWithEffects\<lparr>PC := 2, SP := 0xFFFF\<rparr>)"
    by (simp add: scenario_defs step_defs)
  have sk: "skipTaken 12 0 9"
    by (simp add: skipTaken_def)
  have st: "Step skipWithEffects = (Nil_error, skipWithEffects\<lparr>PC := 3, SP := 0xFFFF\<rparr>)"
    by (simp add: scenario_defs step_defs)
  have pc0: "PC skipWithEffects = 0" and sp0: "SP skipWithEffects = 0"
    by (simp_all add: scenario_defs)
  obtain va pa vb pb where
    a: "translateOperand 26 (skipWithEffects\<lparr>PC := PC skipWithEffects + 1\<rparr>)
        = Inr (va, pa, skipWithEffects\<lparr>PC := PC skipWithEffects + 1 + nextWords 26,
                                       SP := SP skipWithEffects + spDelta 26\<rparr>)"
    and b: "translateOperand 30 (skipWithEffects\<lparr>PC := PC skipWithEffects + 1 + nextWords 26,
                                       SP := SP skipWithEffects + spDelta 26\<rparr>)
        = Inr (vb, pb, translated skipWithEffects 26 30)"
    and c: "12 \<le> (12::Word) \<and> skipTaken 12 va vb \<longrightarrow>
          fst (Step skipWithEffects) = Nil_error
          \<and> SP (snd (Step skipWithEffects)) = SP skipWithEffects + spDelta 26 + spDelta 30
          \<and> PC (snd (Step skipWithEffects)) = PC skipWithEffects + 1 + nextWords 26 + nextWords 30
               + wordCount (Ram skipWithEffects
                   (PC skipWithEffects + 1 + nextWords 26 + nextWords 30))"
    using C5_operand_side_effects[OF d] by blast
  have va: "va = 0"
    using a
    by (simp add: scenario_defs translateOperand_def readBack_def nextWords_def spDelta_def)
  have vb: "vb = 9"
    using b
    by (simp add: scenario_defs translateOperand_def readBack_def nextWords_def spDelta_def)
  have "12 \<le> (12::Word) \<and> skipTaken 12 va vb"
    using sk va vb by simp
  then show ?thesis
    using c d ta tb sk st by blast
qed

text \<open>
  C6, as stated: on the program \<open>[0xC00D, 0x7DE1, 0x1000, 0x0042, 0x8401]\<close> from the zero
  state the first instruction skips, so \<open>PC\<close> is 4 after it, and the run ends with
  \<open>RAM[0x1000] = 0\<close>, \<open>A = 0\<close> and \<open>O = 0\<close>. This fails: after the first step \<open>PC\<close> is 1,
  and \<open>RAM[0x1000]\<close> is \<open>0x42\<close> after two steps and after three, when \<open>A\<close> is 1.
\<close>

theorem C6_counterexample:
  "PC (snd (Step skipScenario)) \<noteq> 4
   \<and> Ram (snd (Step (snd (Step skipScenario)))) 0x1000 \<noteq> 0
   \<and> Ram (snd (Step (snd (Step (snd (Step skipScenario)))))) 0x1000 \<noteq> 0
   \<and> A (snd (Step (snd (Step (snd (Step skipScenario)))))) \<noteq> 0"
  by (simp add: scenario_defs step_defs)

text \<open>
  C6, amended. The word \<open>0xC00D\<close> decodes to op 13 with operand codes 0 and 48, that is
  \<^verbatim>\<open>IFN A, 0x10\<close>: in the zero state its test holds and nothing is skipped, \<open>PC\<close> becomes 1.
  The second step runs \<^verbatim>\<open>SET [0x1000], 0x42\<close> and leaves \<open>PC\<close> at 4; the word \<open>0x8401\<close>
  decodes to op 1 with operand codes 0 and 33, that is \<^verbatim>\<open>SET A, 1\<close>, and the third step
  leaves \<open>PC\<close> at 5. The final state has \<open>RAM[0x1000] = 0x42\<close>, \<open>A = 1\<close> and \<open>O = 0\<close>.
\<close>

theorem C6_program_runs_without_skip:
  "decodeOpcode 0xC00D = (13, 0, 48)
   \<and> decodeOpcode 0x8401 = (1, 0, 33)
   \<and> Step skipScenario = (Nil_error, skipScenario\<lparr>PC := 1\<rparr>)
   \<and> Step (skipScenario\<lparr>PC := 1\<rparr>)
       = (Nil_error, skipScenario\<lparr>PC := 4, Ram := (Ram skipScenario)(0x1000 := 0x42)\<rparr>)
   \<and> Step (skipScenario\<lparr>PC := 4, Ram := (Ram skipScenario)(0x1000 := 0x42)\<rparr>)
       = (Nil_error, skipScenario\<lparr>A := 1, PC := 5, Ram := (Ram skipScenario)(0x1000 := 0x42)\<rparr>)
   \<and> Ram (snd (Step (snd (Step (snd (Step skipScenario)))))) 0x1000 = 0x42
   \<and> A (snd (Step (snd (Step (snd (Step skipScenario)))))) = 1
   \<and> O_reg (snd (Step (snd (Step (snd (Step skipScenario)))))) = 0"
  by (simp add: scenario_defs step_defs)

text \<open>
  C7. A PUSH followed by a POP leaves \<open>SP\<close> where it was and the POP reads the pushed
  value back; \<open>SP\<close> wraps around modulo \<open>2^16\<close>. For the operands alone: PUSH (code 26)
  names the cell at \<open>SP - 1\<close> and leaves \<open>SP - 1\<close> in \<open>SP\<close>, and once a value \<open>v\<close> is
  assigned there POP (code 24) reads \<open>v\<close> and leaves the old \<open>SP\<close>. For the instructions:
  when \<^verbatim>\<open>SET PUSH, w\<close> (words \<open>0x7DA1, w\<close>) is followed by \<^verbatim>\<open>SET A, POP\<close> (word \<open>0x6001\<close>),
  the pushed cell is not protected and is not the cell of the second instruction, two
  steps end with \<open>A = w\<close> and \<open>SP\<close> unchanged. From the zero state with \<open>w = 0x1234\<close> this
  gives \<open>A = 0x1234\<close> and \<open>SP = 0\<close>, through \<open>SP = 0xFFFF\<close>.
\<close>

theorem C7_push_then_pop:
  assumes p1: "Ram s (PC s) = 0x7DA1"
    and p2: "Ram s (PC s + 2) = 0x6001"
    and unprot: "\<not> regionLoop (Protected s) (SP s - 1)"
    and apart: "SP s - 1 \<noteq> PC s + 2"
  shows "translateOperand 26 s
           = Inr (Ram s (SP s - 1), Some (Ptr_Ram (SP s - 1)), s\<lparr>SP := SP s - 1\<rparr>)
     \<and> translateOperand 24 (assign (Ptr_Ram (SP s - 1)) v (s\<lparr>SP := SP s - 1\<rparr>))
           = Inr (v, Some (Ptr_Ram (SP s - 1)), assign (Ptr_Ram (SP s - 1)) v s)
     \<and> unat (SP s - 1) = (unat (SP s) + 65535) mod 65536
     \<and> unat (SP s + 1) = (unat (SP s) + 1) mod 65536
     \<and> (\<exists>s1 s2. Step s = (Nil_error, s1) \<and> Step s1 = (Nil_error, s2)
           \<and> SP s1 = SP s - 1 \<and> Ram s1 (SP s1) = Ram s (PC s + 1)
           \<and> A s2 = Ram s (PC s + 1) \<and> SP s2 = SP s)"
proof -
  define s1 where
    "s1 = s\<lparr>PC := PC s + 2, SP := SP s - 1, Ram := (Ram s)(SP s - 1 := Ram s (PC s + 1))\<rparr>"
  define s2 where "s2 = s1\<lparr>A := Ram s (PC s + 1), PC := PC s + 3, SP := SP s\<rparr>"
  have st1: "Step s = (Nil_error, s1)"
    using p1 unprot by (simp add: step_defs s1_def)
  have "Ram s1 (PC s1) = 0x6001"
    using p2 apart by (simp add: s1_def)
  then have st2: "Step s1 = (Nil_error, s2)"
    by (simp add: step_defs s1_def s2_def)
  have run: "\<exists>s1 s2. Step s = (Nil_error, s1) \<and> Step s1 = (Nil_error, s2)
           \<and> SP s1 = SP s - 1 \<and> Ram s1 (SP s1) = Ram s (PC s + 1)
           \<and> A s2 = Ram s (PC s + 1) \<and> SP s2 = SP s"
    using st1 st2 by (intro exI[of _ s1] exI[of _ s2]) (simp add: s1_def s2_def)
  have pop: "translateOperand 24 (assign (Ptr_Ram (SP s - 1)) v (s\<lparr>SP := SP s - 1\<rparr>))
           = Inr (v, Some (Ptr_Ram (SP s - 1)), assign (Ptr_Ram (SP s - 1)) v s)"
    by (simp add: translate_POP)
  show ?thesis
    using translate_PUSH[of s] pop unat_dec[of "SP s"] unat_inc[of "SP s"] run
    by (intro conjI)
qed

theorem C7_push_then_pop_witness:
  "Ram stackScenario (PC stackScenario) = 0x7DA1
   \<and> Ram stackScenario (PC stackScenario + 2) = 0x6001
   \<and> \<not> regionLoop (Protected stackScenario) (SP stackScenario - 1)
   \<and> SP stackScenario - 1 \<noteq> PC stackScenario + 2
   \<and> SP stackScenario = 0
   \<and> Ram stackScenario (PC stackScenario + 1) = 0x1234
   \<and> SP (snd (Step stackScenario)) = 0xFFFF
   \<and> A (snd (Step (snd (Step stackScenario)))) = 0x1234
   \<and> SP (snd (Step (snd (Step stackScenario)))) = 0"
proof -
  have p1: "Ram stackScenario (PC stackScenario) = 0x7DA1"
    and p2: "Ram stackScenario (PC stackScenario + 2) = 0x6001"
    and unprot: "\<not> regionLoop (Protected stackScenario) (SP stackScenario - 1)"
    and apart: "SP stackScenario - 1 \<noteq> PC stackScenario + 2"
    and sp: "SP stackScenario = 0"
    and w: "Ram stackScenario (PC stackScenario + 1) = 0x1234"
    by (simp_all add: scenario_defs)
  obtain s1 s2 where "Step stackScenario = (Nil_error, s1)" "Step s1 = (Nil_error, s2)"
    "SP s1 = SP stackScenario - 1" "A s2 = Ram stackScenario (PC stackScenario + 1)"
    "SP s2 = SP stackScenario"
    using C7_push_then_pop[OF p1 p2 unprot apart] by blast
  then have "SP (snd (Step stackScenario)) = 0xFFFF"
    "A (snd (Step (snd (Step stackScenario)))) = 0x1234"
    "SP (snd (Step (snd (Step stackScenario)))) = 0"
    using sp w by simp_all
  then show ?thesis
    using p1 p2 unprot apart sp w by blast
qed

text \<open>
  C8, as stated: an instruction whose opcode is SET, MOD, SHR, AND, BOR, XOR or a
  conditional leaves \<open>O\<close> untouched. This fails when operand \<open>a\<close> is \<open>O\<close> itself (code 29):
  \<^verbatim>\<open>SET O, 1\<close> in the zero state ends with \<open>O = 1\<close>.
\<close>

theorem C8_counterexample:
  "decodeOpcode (Ram setOScenario (PC setOScenario)) = (1, 29, 33)
   \<and> O_reg setOScenario = 0
   \<and> O_reg (snd (Step setOScenario)) = 1
   \<and> O_reg (snd (Step setOScenario)) \<noteq> O_reg setOScenario"
  by (simp add: scenario_defs step_defs)

text \<open>
  C8, amended. An instruction whose opcode is SET (1), MOD (6), SHR (8), AND (9), BOR (10),
  XOR (11) or a conditional (12--15), and whose operand \<open>a\<close> is not the register \<open>O\<close>
  (code 29), leaves \<open>O\<close> as it was, also when \<open>Step\<close> ends in an error or a panic.
\<close>

theorem C8_O_kept_unless_target:
  assumes d: "decodeOpcode (Ram s (PC s)) = (ins, a, b)"
    and i: "ins \<in> {1, 6, 8, 9, 10, 11, 12, 13, 14, 15}"
    and a: "a \<noteq> 29"
  shows "O_reg (snd (Step s)) = O_reg s"
proof -
  obtain va pa vb where ta: "translateOperand a (s\<lparr>PC := PC s + 1\<rparr>)
        = Inr (va, pa, s\<lparr>PC := PC s + 1 + nextWords a, SP := SP s + spDelta a\<rparr>)"
    and st: "Step s = (case execute ins va vb (translated s a b) of
                   Inl p \<Rightarrow> (Panicked p, translated s a b)
                 | Inr (val, s4) \<Rightarrow> store (Ram s (PC s)) ins va vb pa val s4)"
    using Step_eq[OF d] by blast
  have "a \<le> 63"
    using decode_bounds(2)[of "Ram s (PC s)"] d by simp
  then have pa: "pa \<noteq> Some Ptr_O"
    using translate_ptr_O[of a "s\<lparr>PC := PC s + 1\<rparr>" va] ta a by auto
  have t: "O_reg (translated s a b) = O_reg s"
    by (simp add: translated_def)
  show ?thesis
  proof (cases "execute ins va vb (translated s a b)")
    case (Inl p)
    then show ?thesis using st t by simp
  next
    case (Inr r)
    obtain val s4 where r: "r = (val, s4)" by (cases r) auto
    have "O_reg s4 = O_reg s"
      using execute_keeps_O[OF i] Inr r t by simp
    then show ?thesis
      using st Inr r store_keeps_O[OF pa] by simp
  qed
qed

theorem C8_O_kept_unless_target_witness:
  "decodeOpcode (Ram keepOScenario (PC keepOScenario)) = (1, 0, 33)
   \<and> A (snd (Step keepOScenario)) = 1
   \<and> O_reg keepOScenario = 5
   \<and> O_reg (snd (Step keepOScenario)) = O_reg keepOScenario"
proof -
  have d: "decodeOpcode (Ram keepOScenario (PC keepOScenario)) = (1, 0, 33)"
    by (simp add: scenario_defs step_defs)
  have i: "(1::Word) \<in> {1, 6, 8, 9, 10, 11, 12, 13, 14, 15}" by simp
  have a: "(0::Word) \<noteq> 29" by simp
  have "A (snd (Step keepOScenario)) = 1" and "O_reg keepOScenario = 5"
    by (simp_all add: scenario_defs step_defs)
  then show ?thesis
    using C8_O_kept_unless_target[OF d i a] d by simp
qed

text \<open>
  C9. For every 16-bit instruction word, \<open>decodeOpcode\<close> yields an opcode in 0..15 and
  operand codes in 0..63. Hence neither \<open>translateOperand\<close> on a decoded operand nor the
  execute switch on a decoded opcode takes its out-of-bounds panic branch, and \<open>Step\<close>
  never panics with \<open>Out_of_bounds_opcode\<close> or \<open>Out_of_bounds_operand\<close>.
\<close>

theorem C9_decoded_fields_in_range:
  "(case decodeOpcode w of
      (ins, a, b) \<Rightarrow>
        ins \<le> 15 \<and> a \<le> 63 \<and> b \<le> 63
        \<and> execute ins va vb s \<noteq> Inl Out_of_bounds_opcode
        \<and> translateOperand a s \<noteq> Inl Out_of_bounds_operand
        \<and> translateOperand b s \<noteq> Inl Out_of_bounds_operand)
   \<and> fst (Step s) \<noteq> Panicked Out_of_bounds_opcode
   \<and> fst (Step s) \<noteq> Panicked Out_of_bounds_operand"
proof -
  obtain ins a b where d: "decodeOpcode w = (ins, a, b)"
    by (cases "decodeOpcode w") auto
  have ins: "ins \<le> 15" and a: "a \<le> 63" and b: "b \<le> 63"
    using decode_bounds[of w] d by simp_all
  have e: "execute ins va vb s \<noteq> Inl Out_of_bounds_opcode"
    using execute_panic[OF ins] by fastforce
  have ta: "translateOperand a s \<noteq> Inl Out_of_bounds_operand"
    using translate_result[OF a, of s] by auto
  have tb: "translateOperand b s \<noteq> Inl Out_of_bounds_operand"
    using translate_result[OF b, of s] by auto
  have "fst (Step s) \<noteq> Panicked Out_of_bounds_opcode"
    and "fst (Step s) \<noteq> Panicked Out_of_bounds_operand"
    using Step_panic[of s] by auto
  then show ?thesis
    using d ins a b e ta tb by simp
qed

text \<open>
  C10. When \<open>Step\<close> returns a protection error the state is not rolled back: \<open>PC\<close> has
  moved past the instruction word and past every extra word its operands read, \<open>SP\<close>
  keeps the moves of a PUSH or POP operand, and the state is the one the execute switch
  produced from the translated state, so that only the store is missing; memory is as
  before, and apart from \<open>O\<close> the state is the translated one.
\<close>

theorem C10_fault_keeps_side_effects:
  assumes d: "decodeOpcode (Ram s (PC s)) = (ins, a, b)"
    and f: "Step s = (Protection e, s')"
  shows "PC s' = PC s + 1 + nextWords a + nextWords b
     \<and> SP s' = SP s + spDelta a + spDelta b
     \<and> Ram s' = Ram s
     \<and> s'\<lparr>O_reg := O_reg s\<rparr> = translated s a b
     \<and> (\<exists>va vb val. execute ins va vb (translated s a b) = Inr (val, s'))"
proof -
  obtain va pa vb where st:
    "Step s = (case execute ins va vb (translated s a b) of
                   Inl p \<Rightarrow> (Panicked p, translated s a b)
                 | Inr (val, s4) \<Rightarrow> store (Ram s (PC s)) ins va vb pa val s4)"
    using Step_eq[OF d] by blast
  obtain val s4 where ex: "execute ins va vb (translated s a b) = Inr (val, s4)"
    using st f by (cases "execute ins va vb (translated s a b)") auto
  have sto: "store (Ram s (PC s)) ins va vb pa val s4 = (Protection e, s')"
    using st f ex by simp
  have eq: "s' = s4" and ins: "ins \<le> 11"
    using store_Protection[OF sto] by simp_all
  have fr: "s4 = (translated s a b)\<lparr>O_reg := O_reg s4\<rparr>"
    using execute_arith_frame[OF ins ex] .
  have pc: "PC s' = PC s + 1 + nextWords a + nextWords b"
    and sp: "SP s' = SP s + spDelta a + spDelta b"
    and ram: "Ram s' = Ram s"
    unfolding eq by (subst fr, simp add: translated_def)+
  have rest: "s'\<lparr>O_reg := O_reg s\<rparr> = translated s a b"
    unfolding eq by (subst fr) (simp add: translated_def)
  have "\<exists>va vb val. execute ins va vb (translated s a b) = Inr (val, s')"
    using ex eq by blast
  with pc sp ram rest show ?thesis by simp
qed

theorem C10_fault_keeps_side_effects_witness:
  "decodeOpcode (Ram pushFaultScenario (PC pushFaultScenario)) = (1, 26, 31)
   \<and> Step pushFaultScenario
       = (Protection \<lparr>Address = 0x1000, Opcode = 0x7DA1, OperandA = 0, OperandB = 0x1234\<rparr>,
          pushFaultScenario\<lparr>PC := 2, SP := 0x1000\<rparr>)
   \<and> PC (pushFaultScenario\<lparr>PC := 2, SP := 0x1000\<rparr>)
       = PC pushFaultScenario + 1 + nextWords 26 + nextWords 31
   \<and> SP (pushFaultScenario\<lparr>PC := 2, SP := 0x1000\<rparr>)
       = SP pushFaultScenario + spDelta 26 + spDelta 31
   \<and> Ram (pushFaultScenario\<lparr>PC := 2, SP := 0x1000\<rparr>) = Ram pushFaultScenario
   \<and> PC pushFaultScenario = 0 \<and> SP pushFaultScenario = 0x1001"
proof -
  have d: "decodeOpcode (Ram pushFaultScenario (PC pushFaultScenario)) = (1, 26, 31)"
    by (simp add: scenario_defs step_defs)
  have f: "Step pushFaultScenario
       = (Protection \<lparr>Address = 0x1000, Opcode = 0x7DA1, OperandA = 0, OperandB = 0x1234\<rparr>,
          pushFaultScenario\<lparr>PC := 2, SP := 0x1000\<rparr>)"
    by (simp add: scenario_defs step_defs)
  have "PC pushFaultScenario = 0" and "SP pushFaultScenario = 0x1001"
    by (simp_all add: scenario_defs)
  then show ?thesis
    using C10_fault_keeps_side_effects[OF d f] d f by blast
qed

end
